theory Spec2Isabelle
  imports Complex_Main
begin

section \<open>Python values shared by both notebooks\<close>

text \<open>
  A Python 3 string is a sequence of Unicode code points, so a string is a list of
  code points here (an Isabelle \<open>char\<close> is one byte and could not hold the
  accented letters that \<open>unicodeToAscii\<close> removes). \<open>str\<close> writes an ASCII
  literal as such a string.
\<close>

type_synonym codepoint = nat
type_synonym pystr = "codepoint list"

definition str :: "string \<Rightarrow> pystr" where
  "str s = map of_char s"

text \<open>The exceptions the modelled code can raise, as values.\<close>

datatype io_error = OSError | UnicodeDecodeError

datatype pyerror =
    ValueError
  | IndexError
  | KeyError
  | NameError string
  | TypeError
  | RuntimeError string
  | ReadFailed io_error

text \<open>
  \<open>xs[i] = v\<close> on a Python list or a tensor dimension: a negative index counts from
  the end, an index outside \<open>-n .. n-1\<close> raises.
\<close>

definition set_item :: "'a list \<Rightarrow> int \<Rightarrow> 'a \<Rightarrow> pyerror + 'a list" where
  "set_item xs i v =
     (let n = int (length xs); j = (if i < 0 then i + n else i)
      in if 0 \<le> j \<and> j < n then Inr (xs[nat j := v]) else Inl IndexError)"

text \<open>\<open>xs.index(x)\<close>: the first position of \<open>x\<close>, ValueError when there is none.\<close>

definition list_index :: "'a list \<Rightarrow> 'a \<Rightarrow> pyerror + nat" where
  "list_index xs x =
     (if x \<in> set xs then Inr (length (takeWhile (\<lambda>y. y \<noteq> x) xs)) else Inl ValueError)"

text \<open>\<open>s.find(c)\<close> for a one-character \<open>c\<close>: the first position of \<open>c\<close>, or -1.\<close>

definition find_str :: "pystr \<Rightarrow> codepoint \<Rightarrow> int" where
  "find_str s c = (if c \<in> set s then int (length (takeWhile (\<lambda>x. x \<noteq> c) s)) else - 1)"

text \<open>\<open>torch.zeros(n)\<close>: one dimension of a tensor, entries as reals.\<close>

definition zeros :: "nat \<Rightarrow> real list" where
  "zeros n = replicate n 0"


section \<open>Notebook 1: index mappings and the tagger's training loop\<close>

text \<open>
  A dict from tokens to indices, in insertion order. \<open>w not in d\<close> is
  \<open>map_of d w = None\<close>, \<open>len(d)\<close> is \<open>length d\<close>, and \<open>d[w] = len(d)\<close> for a key
  that is not in \<open>d\<close> appends the entry.
\<close>

type_synonym 'k to_ix = "('k \<times> nat) list"

text \<open>
  The body of the builder's innermost loop:
  \<^verbatim>\<open>if word not in word_to_ix: word_to_ix[word] = len(word_to_ix)\<close>
\<close>

definition add_token :: "'k \<Rightarrow> 'k to_ix \<Rightarrow> 'k to_ix" where
  "add_token word d = (if map_of d word = None then d @ [(word, length d)] else d)"

text \<open>
  \<^verbatim>\<open>word_to_ix = {}
for sent, tags in training_data:
    for word in sent:
        if word not in word_to_ix:
            word_to_ix[word] = len(word_to_ix)\<close>
\<close>

definition word_to_ix :: "('w list \<times> 't list) list \<Rightarrow> 'w to_ix" where
  "word_to_ix training_data =
     fold (\<lambda>(sent, tags) d. fold add_token sent d) training_data []"

text \<open>
  \<^verbatim>\<open>char_to_ix = {}
for sent,_ in training_data:
    for w in sent:
        for char in w:
            if char not in char_to_ix:
                char_to_ix[char] = len(char_to_ix)\<close>
\<close>

definition char_to_ix :: "('c list list \<times> 't list) list \<Rightarrow> 'c to_ix" where
  "char_to_ix training_data =
     fold (\<lambda>(sent, tags) d. fold (\<lambda>w d. fold add_token w d) sent d) training_data []"

text \<open>
  What the builder is to deliver for the tokens in the order the loops visit them:
  every token has exactly one entry, the indices in insertion order are
  \<open>0, 1, ..., n-1\<close> for the \<open>n\<close> distinct tokens, and the index of a token is the
  number of distinct tokens seen before its first occurrence.
\<close>

definition first_occurrence_ix :: "'k list \<Rightarrow> 'k to_ix \<Rightarrow> bool" where
  "first_occurrence_ix tokens d \<longleftrightarrow>
     distinct (map fst d) \<and> set (map fst d) = set tokens \<and>
     map snd d = [0..<card (set tokens)] \<and>
     (\<forall>w \<in> set tokens. map_of d w = Some (card (set (takeWhile (\<lambda>x. x \<noteq> w) tokens))))"

text \<open>
  \<^verbatim>\<open>def prepare_sequence(seq, to_ix):
    idxs = [to_ix[w] for w in seq]
    return torch.tensor(idxs, dtype=torch.long)\<close>
  The comprehension comes first: \<open>to_ix[w]\<close> raises KeyError for a missing key.
  Then \<open>torch.tensor(idxs, dtype=torch.long)\<close> raises a RuntimeError when an index
  is no signed 64-bit integer, that is, when it is \<open>2^63\<close> or more (the message is
  that of the notebook's version of the framework).
\<close>

fun lookup_indices :: "'k list \<Rightarrow> 'k to_ix \<Rightarrow> pyerror + nat list" where
  "lookup_indices [] to_ix = Inr []"
| "lookup_indices (w # ws) to_ix =
     (case map_of to_ix w of
        None \<Rightarrow> Inl KeyError
      | Some i \<Rightarrow>
          (case lookup_indices ws to_ix of
             Inl e \<Rightarrow> Inl e
           | Inr idxs \<Rightarrow> Inr (i # idxs)))"

definition fits_long :: "nat \<Rightarrow> bool" where
  "fits_long i \<longleftrightarrow> i < 2 ^ 63"

definition long_overflow :: string where
  "long_overflow = ''Overflow when unpacking long''"

definition prepare_sequence :: "'k list \<Rightarrow> 'k to_ix \<Rightarrow> pyerror + nat list" where
  "prepare_sequence seq to_ix =
     (case lookup_indices seq to_ix of
        Inl e \<Rightarrow> Inl e
      | Inr idxs \<Rightarrow>
          if list_all fits_long idxs then Inr idxs else Inl (RuntimeError long_overflow))"

text \<open>The inverse of an index mapping, index to token, for decoding.\<close>

definition inverse_ix :: "'k to_ix \<Rightarrow> nat \<Rightarrow> 'k option" where
  "inverse_ix d = map_of (map (\<lambda>(k, v). (v, k)) d)"

text \<open>The hard-coded data of the notebook.\<close>

definition training_data :: "(string list \<times> string list) list" where
  "training_data =
     [([''The'', ''dog'', ''ate'', ''the'', ''apple''], [''DET'', ''NN'', ''V'', ''DET'', ''NN'']),
      ([''Everybody'', ''read'', ''that'', ''book''], [''NN'', ''V'', ''DET'', ''NN''])]"

definition tag_to_ix :: "string to_ix" where
  "tag_to_ix = [(''DET'', 0), (''NN'', 1), (''V'', 2)]"

text \<open>
  The training loop calls the framework and nothing else; the framework is a state
  machine of an unknown state \<open>'m\<close> (parameters, gradients, hidden state, the last
  scores and loss) that each call transforms. The loop is modelled by the calls it
  makes, in order, threaded through that state.
\<close>

datatype call =
    ZeroGrad
  | InitHidden
  | Forward "nat list"
  | NLLLoss "nat list"
  | Backward
  | OptimizerStep

type_synonym 'm run = "'m \<times> call list"

definition do_call :: "(call \<Rightarrow> 'm \<Rightarrow> 'm) \<Rightarrow> call \<Rightarrow> 'm run \<Rightarrow> 'm run" where
  "do_call torch c st = (torch c (fst st), snd st @ [c])"

text \<open>
  The body of the inner loop, for one \<open>(sentence, tags)\<close>:
  \<^verbatim>\<open>model.zero_grad()
model.hidden = model.init_hidden()
sentence_in = prepare_sequence(sentence, word_to_ix)
targets = prepare_sequence(tags, tag_to_ix)
tag_scores = model(sentence_in)
loss = loss_function(tag_scores, targets)
loss.backward()
optimizer.step()\<close>
\<close>

definition train_sentence ::
  "(call \<Rightarrow> 'm \<Rightarrow> 'm) \<Rightarrow> string list \<times> string list \<Rightarrow> 'm run \<Rightarrow> pyerror + 'm run" where
  "train_sentence torch example st =
     (let st1 = do_call torch ZeroGrad st;
          st2 = do_call torch InitHidden st1
      in case prepare_sequence (fst example) (word_to_ix training_data) of
           Inl e \<Rightarrow> Inl e
         | Inr sentence_in \<Rightarrow>
             (case prepare_sequence (snd example) tag_to_ix of
                Inl e \<Rightarrow> Inl e
              | Inr targets \<Rightarrow>
                  Inr (do_call torch OptimizerStep
                        (do_call torch Backward
                          (do_call torch (NLLLoss targets)
                            (do_call torch (Forward sentence_in) st2))))))"

text \<open>\<^verbatim>\<open>for sentence, tags in training_data:\<close>, stopping at the first exception.\<close>

fun train_epoch ::
  "(call \<Rightarrow> 'm \<Rightarrow> 'm) \<Rightarrow> (string list \<times> string list) list \<Rightarrow> 'm run \<Rightarrow> pyerror + 'm run" where
  "train_epoch torch [] st = Inr st"
| "train_epoch torch (example # rest) st =
     (case train_sentence torch example st of
        Inl e \<Rightarrow> Inl e
      | Inr st' \<Rightarrow> train_epoch torch rest st')"

text \<open>\<^verbatim>\<open>for epoch in range(300):\<close>, as the number of epochs still to run.\<close>

fun train_epochs :: "(call \<Rightarrow> 'm \<Rightarrow> 'm) \<Rightarrow> nat \<Rightarrow> 'm run \<Rightarrow> pyerror + 'm run" where
  "train_epochs torch 0 st = Inr st"
| "train_epochs torch (Suc n) st =
     (case train_epoch torch training_data st of
        Inl e \<Rightarrow> Inl e
      | Inr st' \<Rightarrow> train_epochs torch n st')"

definition train :: "(call \<Rightarrow> 'm \<Rightarrow> 'm) \<Rightarrow> 'm \<Rightarrow> pyerror + 'm run" where
  "train torch model = train_epochs torch 300 (model, [])"

text \<open>The calls of one pass of the inner loop's body, for the statement of the result.\<close>

definition sentence_calls :: "nat list \<Rightarrow> nat list \<Rightarrow> call list" where
  "sentence_calls sentence_in targets =
     [ZeroGrad, InitHidden, Forward sentence_in, NLLLoss targets, Backward, OptimizerStep]"

definition epoch_calls :: "call list" where
  "epoch_calls =
     sentence_calls [0, 1, 2, 3, 4] [0, 1, 2, 0, 1] @ sentence_calls [5, 6, 7, 8] [1, 2, 0, 1]"


text \<open>Whether a call of the framework computes a loss.\<close>

definition is_loss :: "call \<Rightarrow> bool" where
  "is_loss c = (case c of NLLLoss targets \<Rightarrow> True | _ \<Rightarrow> False)"

text \<open>
  The character-augmented tagger. What matters of a global name is whether it is bound
  to a class, and to which; classes are known by their names.
  \<^verbatim>\<open>class LSTMCharTagger(nn.Module):\<close> has the method resolution order
  \<open>LSTMCharTagger, Module, object\<close>.
\<close>

datatype pyobject = ClassObject string | OtherObject

definition LSTMCharTagger_mro :: "string list" where
  "LSTMCharTagger_mro = [''LSTMCharTagger'', ''Module'', ''object'']"

text \<open>
  \<open>super(name, self)\<close> in a method of \<open>LSTMCharTagger\<close>: the name is looked up among
  the globals (the method has no local of that name) and must be bound to a class that
  \<open>self\<close> is an instance of, that is, to a class of the method resolution order.
\<close>

definition py_super :: "(string \<rightharpoonup> pyobject) \<Rightarrow> string \<Rightarrow> pyerror + string" where
  "py_super globals name =
     (case globals name of
        None \<Rightarrow> Inl (NameError name)
      | Some OtherObject \<Rightarrow> Inl TypeError
      | Some (ClassObject c) \<Rightarrow> if c \<in> set LSTMCharTagger_mro then Inr c else Inl TypeError)"

text \<open>
  \<^verbatim>\<open>def __init__(self, word_embedding_dim, hidden_dim, vocab_size, char_embedding_dim,
             hidden_char_dim, charset_size, tagset_size):
    super(LSTMTaggerWithChar, self).__init__()
    ...\<close>
  The call binds seven arguments or raises; the statements after the first are the
  parameter \<open>rest\<close>.
\<close>

definition LSTMCharTagger_init ::
  "(string \<rightharpoonup> pyobject) \<Rightarrow> ('a list \<Rightarrow> pyerror + 't) \<Rightarrow> 'a list \<Rightarrow> pyerror + 't" where
  "LSTMCharTagger_init globals rest args =
     (if length args \<noteq> 7 then Inl TypeError
      else case py_super globals ''LSTMTaggerWithChar'' of
             Inl e \<Rightarrow> Inl e
           | Inr c \<Rightarrow> rest args)"

text \<open>
  The global names that the cells of the notebook bind before the cell that constructs
  the tagger, in the order of their first binding.
\<close>

definition notebook_globals :: "string \<rightharpoonup> pyobject" where
  "notebook_globals = map_of
     [(''torch'', OtherObject), (''nn'', OtherObject), (''F'', OtherObject),
      (''optim'', OtherObject), (''lstm'', OtherObject), (''inputs'', OtherObject),
      (''hidden'', OtherObject), (''i'', OtherObject), (''out'', OtherObject),
      (''prepare_sequence'', OtherObject), (''training_data'', OtherObject),
      (''word_to_ix'', OtherObject), (''sent'', OtherObject), (''tags'', OtherObject),
      (''word'', OtherObject), (''tag_to_ix'', OtherObject),
      (''EMBEDDING_DIM'', OtherObject), (''HIDDEN_DIM'', OtherObject),
      (''LSTMTagger'', ClassObject ''LSTMTagger''), (''model'', OtherObject),
      (''loss_function'', OtherObject), (''optimizer'', OtherObject),
      (''tag_scores'', OtherObject), (''epoch'', OtherObject), (''sentence'', OtherObject),
      (''sentence_in'', OtherObject), (''targets'', OtherObject), (''loss'', OtherObject),
      (''CHAR_EMBEDDING'', OtherObject), (''CHAR_LEVEL_REPRESENTATION_DIM'', OtherObject),
      (''char_to_ix'', OtherObject), (''_'', OtherObject), (''w'', OtherObject),
      (''char'', OtherObject), (''prepare_both_sequences'', OtherObject),
      (''LSTMCharTagger'', ClassObject ''LSTMCharTagger''),
      (''get_batch_size'', OtherObject)]"


section \<open>Notebook 2: the name corpus, the encodings and the sampler\<close>

text \<open>
  \<^verbatim>\<open>all_letters = string.ascii_letters + " .,;'-"
n_letters = len(all_letters) + 1 # Plus EOS marker\<close>
  \<open>string.ascii_letters\<close> is the lower-case alphabet followed by the upper-case one.
\<close>

definition ascii_letters :: pystr where
  "ascii_letters = str ''abcdefghijklmnopqrstuvwxyzABCDEFGHIJKLMNOPQRSTUVWXYZ''"

definition all_letters :: pystr where
  "all_letters = ascii_letters @ str '' .,;'-''"

definition n_letters :: nat where
  "n_letters = length all_letters + 1"

text \<open>
  The library functions the loader calls, as parameters: \<open>unicodedata.normalize('NFD', s)\<close>,
  \<open>unicodedata.category(c)\<close> and the whitespace test behind \<open>str.strip()\<close>.
\<close>

record unicodedata =
  normalize_NFD :: "pystr \<Rightarrow> pystr"
  category :: "codepoint \<Rightarrow> string"
  isspace :: "codepoint \<Rightarrow> bool"

text \<open>
  \<^verbatim>\<open>def unicodeToAscii(s):
    return ''.join(
        c for c in unicodedata.normalize('NFD', s)
        if unicodedata.category(c) != 'Mn'
        and c in all_letters
    )\<close>
\<close>

definition unicodeToAscii :: "unicodedata \<Rightarrow> pystr \<Rightarrow> pystr" where
  "unicodeToAscii lib s =
     filter (\<lambda>c. category lib c \<noteq> ''Mn'' \<and> c \<in> set all_letters) (normalize_NFD lib s)"

text \<open>\<open>s.strip()\<close> and \<open>s.split('\n')\<close>; the line feed is code point 10.\<close>

definition strip :: "unicodedata \<Rightarrow> pystr \<Rightarrow> pystr" where
  "strip lib s = rev (dropWhile (isspace lib) (rev (dropWhile (isspace lib) s)))"

fun split_lines :: "pystr \<Rightarrow> pystr list" where
  "split_lines [] = [[]]"
| "split_lines (c # cs) =
     (if c = 10 then [] # split_lines cs
      else (case split_lines cs of
              [] \<Rightarrow> [[c]]
            | l # ls \<Rightarrow> (c # l) # ls))"

text \<open>
  The file system, as parameters: what \<open>glob.glob(path)\<close> returns, what
  \<open>open(filename, encoding='utf-8').read()\<close> returns or raises, and
  \<open>os.path.splitext(os.path.basename(filename))[0]\<close>.
\<close>

record filesystem =
  glob :: "pystr \<Rightarrow> pystr list"
  read :: "pystr \<Rightarrow> io_error + pystr"
  stem :: "pystr \<Rightarrow> pystr"

definition findFiles :: "filesystem \<Rightarrow> pystr \<Rightarrow> pystr list" where
  "findFiles fs path = glob fs path"

text \<open>
  \<^verbatim>\<open>def readLines(filename):
    lines = open(filename, encoding='utf-8').read().strip().split('\n')
    return [unicodeToAscii(line) for line in lines]\<close>
\<close>

definition readLines :: "unicodedata \<Rightarrow> filesystem \<Rightarrow> pystr \<Rightarrow> io_error + pystr list" where
  "readLines lib fs filename =
     (case read fs filename of
        Inl e \<Rightarrow> Inl e
      | Inr text \<Rightarrow> Inr (map (unicodeToAscii lib) (split_lines (strip lib text))))"

text \<open>
  \<^verbatim>\<open>category_lines = {}
all_categories = []
for filename in findFiles('data/names_data/names/*.txt'):
    category = os.path.splitext(os.path.basename(filename))[0]
    all_categories.append(category)
    lines = readLines(filename)
    category_lines[category] = lines\<close>
\<close>

record corpus =
  category_lines :: "pystr \<rightharpoonup> pystr list"
  all_categories :: "pystr list"

fun load_files :: "unicodedata \<Rightarrow> filesystem \<Rightarrow> pystr list \<Rightarrow> corpus \<Rightarrow> io_error + corpus" where
  "load_files lib fs [] data = Inr data"
| "load_files lib fs (filename # rest) data =
     (let category = stem fs filename;
          data1 = data\<lparr>all_categories := all_categories data @ [category]\<rparr>
      in case readLines lib fs filename of
           Inl e \<Rightarrow> Inl e
         | Inr lines \<Rightarrow>
             load_files lib fs rest
               (data1\<lparr>category_lines := (category_lines data1)(category \<mapsto> lines)\<rparr>))"

definition names_glob :: pystr where
  "names_glob = str ''data/names_data/names/*.txt''"

definition data_not_found :: string where
  "data_not_found = ''Data not found. Make sure that you downloaded data '' @
     ''from https://download.pytorch.org/tutorial/data.zip and extract it to '' @
     ''the current directory.''"

text \<open>
  The loading cell up to its guard:
  \<^verbatim>\<open>n_categories = len(all_categories)

if n_categories == 0:
    raise RuntimeError('Data not found. Make sure that you downloaded data '
        'from https://download.pytorch.org/tutorial/data.zip and extract it to '
        'the current directory.')\<close>
\<close>

definition load_data :: "unicodedata \<Rightarrow> filesystem \<Rightarrow> pyerror + corpus" where
  "load_data lib fs =
     (case load_files lib fs (findFiles fs names_glob)
             \<lparr>category_lines = Map.empty, all_categories = []\<rparr> of
        Inl e \<Rightarrow> Inl (ReadFailed e)
      | Inr data \<Rightarrow>
          (let n_categories = length (all_categories data)
           in if n_categories = 0 then Inl (RuntimeError data_not_found) else Inr data))"

text \<open>
  \<^verbatim>\<open>def categoryTensor(category):
    li = all_categories.index(category)
    tensor = torch.zeros(1, n_categories)
    tensor[0][li] = 1
    return tensor\<close>
\<close>

definition categoryTensor :: "pystr list \<Rightarrow> pystr \<Rightarrow> pyerror + real list list" where
  "categoryTensor categories cat =
     (case list_index categories cat of
        Inl e \<Rightarrow> Inl e
      | Inr li \<Rightarrow>
          (case set_item (zeros (length categories)) (int li) 1 of
             Inl e \<Rightarrow> Inl e
           | Inr row \<Rightarrow> Inr [row]))"

text \<open>
  \<^verbatim>\<open>def inputTensor(line):
    tensor = torch.zeros(len(line), 1, n_letters)
    for li in range(len(line)):
        letter = line[li]
        tensor[li][0][all_letters.find(letter)] = 1
    return tensor\<close>
  The loop runs over the positions still to visit and updates the tensor in place.
\<close>

fun inputTensor_loop ::
  "pystr \<Rightarrow> nat list \<Rightarrow> real list list list \<Rightarrow> pyerror + real list list list" where
  "inputTensor_loop line [] tensor = Inr tensor"
| "inputTensor_loop line (li # rest) tensor =
     (let letter = line ! li
      in case set_item (tensor ! li ! 0) (find_str all_letters letter) 1 of
           Inl e \<Rightarrow> Inl e
         | Inr row \<Rightarrow> inputTensor_loop line rest (tensor[li := [row]]))"

definition inputTensor :: "pystr \<Rightarrow> pyerror + real list list list" where
  "inputTensor line =
     inputTensor_loop line [0..<length line] (replicate (length line) [zeros n_letters])"

text \<open>
  \<^verbatim>\<open>def targetTensor(line):
    letter_indexes = [all_letters.find(line[li]) for li in range(1, len(line))]
    letter_indexes.append(n_letters - 1) # EOS
    return torch.LongTensor(letter_indexes)\<close>
  Nothing here can raise: every \<open>li\<close> is a position of \<open>line\<close>, \<open>find\<close> returns an
  integer, and a LongTensor holds any of them, -1 included.
\<close>

definition targetTensor :: "pystr \<Rightarrow> int list" where
  "targetTensor line =
     map (\<lambda>li. find_str all_letters (line ! li)) [1..<length line] @ [int n_letters - 1]"

text \<open>
  The network, as parameters: \<open>rnn(category, input, hidden)\<close> returns an output and the
  next hidden state, \<open>output.topk(1)\<close> gives the index of the highest output
  (\<open>topi[0][0]\<close>), and \<open>rnn.initHidden()\<close> the first hidden state. The state \<open>'h\<close>
  stands for everything the forward pass depends on besides its arguments, the dropout
  layer's random generator included.
\<close>

record ('h, 'o) network =
  forward :: "real list list \<Rightarrow> real list list \<Rightarrow> 'h \<Rightarrow> 'o \<times> 'h"
  topk1 :: "'o \<Rightarrow> nat"
  initHidden :: 'h

definition max_length :: nat where
  "max_length = 20"

text \<open>
  The loop of \<open>sample\<close>, by the number of iterations \<open>range(max_length)\<close> still has:
  \<^verbatim>\<open>for i in range(max_length):
    output, hidden = rnn(category_tensor, input[0], hidden)
    topv, topi = output.topk(1)
    topi = topi[0][0]
    if topi == n_letters - 1:
        break
    else:
        letter = all_letters[topi]
        output_name += letter
    input = inputTensor(letter)\<close>
  \<open>input[0]\<close> raises on a tensor with no rows, \<open>all_letters[topi]\<close> on an index that is
  no position of \<open>all_letters\<close>.
\<close>

fun sample_loop ::
  "('h, 'o) network \<Rightarrow> real list list \<Rightarrow> nat \<Rightarrow> real list list list \<Rightarrow> 'h \<Rightarrow> pystr
     \<Rightarrow> pyerror + pystr" where
  "sample_loop rnn category_tensor 0 input hidden output_name = Inr output_name"
| "sample_loop rnn category_tensor (Suc k) input hidden output_name =
     (case input of
        [] \<Rightarrow> Inl IndexError
      | input0 # _ \<Rightarrow>
          (let out = forward rnn category_tensor input0 hidden;
               topi = topk1 rnn (fst out)
           in if topi = n_letters - 1 then Inr output_name
              else if topi < length all_letters then
                (let letter = [all_letters ! topi]
                 in case inputTensor letter of
                      Inl e \<Rightarrow> Inl e
                    | Inr input' \<Rightarrow>
                        sample_loop rnn category_tensor k input' (snd out)
                          (output_name @ letter))
              else Inl IndexError))"

text \<open>
  \<^verbatim>\<open>def sample(category, start_letter='A'):
    with torch.no_grad():  # no need to track history in sampling
        category_tensor = categoryTensor(category)
        input = inputTensor(start_letter)
        hidden = rnn.initHidden()

        output_name = start_letter
        for i in range(max_length): ...
        return output_name\<close>
\<close>

definition sample ::
  "pystr list \<Rightarrow> ('h, 'o) network \<Rightarrow> pystr \<Rightarrow> pystr \<Rightarrow> pyerror + pystr" where
  "sample categories rnn cat start_letter =
     (case categoryTensor categories cat of
        Inl e \<Rightarrow> Inl e
      | Inr category_tensor \<Rightarrow>
          (case inputTensor start_letter of
             Inl e \<Rightarrow> Inl e
           | Inr input \<Rightarrow>
               sample_loop rnn category_tensor max_length input (initHidden rnn) start_letter))"

text \<open>
  A one-hot vector of length \<open>n\<close> at position \<open>p\<close>: one at \<open>p\<close>, zero at every other
  position.
\<close>

definition one_hot :: "nat \<Rightarrow> nat \<Rightarrow> real list \<Rightarrow> bool" where
  "one_hot n p row \<longleftrightarrow>
     length row = n \<and> p < n \<and> (\<forall>j < n. row ! j = (if j = p then 1 else 0))"

text \<open>
  Decoding a one-hot row back to its letter, as the sampler decodes an index:
  the position of the one, looked up in \<open>all_letters\<close>.
\<close>

definition hot_position :: "real list \<Rightarrow> nat" where
  "hot_position row = length (takeWhile (\<lambda>v. v \<noteq> 1) row)"

definition decode_row :: "real list list \<Rightarrow> codepoint option" where
  "decode_row rows =
     (case rows of
        [row] \<Rightarrow>
          (if hot_position row < length all_letters
           then Some (all_letters ! hot_position row) else None)
      | _ \<Rightarrow> None)"

text \<open>
  The position that \<open>inputTensor\<close> sets for a letter: its first position in
  \<open>all_letters\<close>, or the last position of the row when \<open>find\<close> returns -1. The row
  it builds for a letter follows.
\<close>

definition letter_position :: "codepoint \<Rightarrow> nat" where
  "letter_position c =
     (if c \<in> set all_letters then nat (find_str all_letters c) else n_letters - 1)"

definition encode_letter :: "codepoint \<Rightarrow> real list list" where
  "encode_letter c = [(zeros n_letters)[letter_position c := 1]]"


section \<open>Inputs for the examples\<close>

text \<open>
  A library and a file system to run the loader on: the identity for NFD (as on ASCII
  text), no combining marks, space and line feed as whitespace, and one file of two
  names.
\<close>

definition ascii_unicodedata :: unicodedata where
  "ascii_unicodedata =
     \<lparr>normalize_NFD = (\<lambda>s. s), category = (\<lambda>c. ''Ll''), isspace = (\<lambda>c. c = 32 \<or> c = 10)\<rparr>"

definition one_file :: filesystem where
  "one_file =
     \<lparr>glob = (\<lambda>path. [str ''data/names_data/names/Greek.txt'']),
      read = (\<lambda>filename. Inr (str ''Ab!'' @ [10] @ str ''c d'' @ [10])),
      stem = (\<lambda>filename. str ''Greek'')\<rparr>"

text \<open>
  A network that never emits the end-of-sequence index: its highest output is always
  index 0, the letter \<open>a\<close>.
\<close>

definition always_a :: "(unit, unit) network" where
  "always_a = \<lparr>forward = (\<lambda>category input hidden. ((), hidden)), topk1 = (\<lambda>output. 0),
     initHidden = ()\<rparr>"

text \<open>
  A network that emits \<open>a\<close>, then \<open>b\<close>, then the end-of-sequence index: its hidden
  state counts the calls, and its highest output is the count while that is below 2.
\<close>

definition counting_net :: "(nat, nat) network" where
  "counting_net = \<lparr>forward = (\<lambda>category input hidden. (hidden, Suc hidden)),
     topk1 = (\<lambda>output. if output < 2 then output else n_letters - 1), initHidden = 0\<rparr>"


section \<open>Properties\<close>

subsection \<open>The index-mapping builder\<close>

lemma takeWhile_append_member:
  "w \<in> set xs \<Longrightarrow> takeWhile (\<lambda>x. x \<noteq> w) (xs @ ys) = takeWhile (\<lambda>x. x \<noteq> w) xs"
  by (induction xs) auto

lemma takeWhile_snoc_fresh:
  "w \<notin> set xs \<Longrightarrow> takeWhile (\<lambda>x. x \<noteq> w) (xs @ [w]) = xs"
  by (induction xs) auto

lemma first_occurrence_ix_length:
  "first_occurrence_ix tokens d \<Longrightarrow> length d = card (set tokens)"
  by (metis first_occurrence_ix_def length_map length_upt minus_nat.diff_0)

lemma map_of_None_iff_keys: "map_of d w = None \<longleftrightarrow> w \<notin> set (map fst d)"
  by (simp add: map_of_eq_None_iff)

lemma add_token_first_occurrence:
  assumes "first_occurrence_ix tokens d"
  shows "first_occurrence_ix (tokens @ [w]) (add_token w d)"
proof (cases "w \<in> set tokens")
  case True
  then have same: "add_token w d = d"
    using assms by (simp add: add_token_def first_occurrence_ix_def map_of_None_iff_keys)
  have "insert w (set tokens) = set tokens" using True by auto
  then show ?thesis
    using assms True
    by (auto simp add: same first_occurrence_ix_def takeWhile_append_member)
next
  case False
  then have new: "add_token w d = d @ [(w, length d)]"
    using assms by (simp add: add_token_def first_occurrence_ix_def map_of_None_iff_keys)
  have len: "length d = card (set tokens)" by (rule first_occurrence_ix_length[OF assms])
  have card: "card (set (tokens @ [w])) = Suc (card (set tokens))"
    using False by simp
  have keys: "set (map fst d) = set tokens" "distinct (map fst d)"
    using assms by (simp_all add: first_occurrence_ix_def)
  have old: "map_of (d @ [(w, length d)]) v = Some (card (set (takeWhile (\<lambda>x. x \<noteq> v) (tokens @ [w]))))"
    if "v \<in> set tokens" for v
  proof -
    have "map_of d v = Some (card (set (takeWhile (\<lambda>x. x \<noteq> v) tokens)))"
      using assms that by (simp add: first_occurrence_ix_def)
    then show ?thesis using that by (simp add: map_add_Some_iff takeWhile_append_member)
  qed
  have fresh: "map_of (d @ [(w, length d)]) w = Some (card (set (takeWhile (\<lambda>x. x \<noteq> w) (tokens @ [w]))))"
  proof -
    have "map_of d w = None" using False keys by (simp add: map_of_None_iff_keys)
    then show ?thesis using False by (simp add: map_add_Some_iff takeWhile_snoc_fresh len)
  qed
  have "distinct (map fst (d @ [(w, length d)]))" using keys False by simp
  moreover have "set (map fst (d @ [(w, length d)])) = set (tokens @ [w])" using keys by auto
  moreover have "map snd (d @ [(w, length d)]) = [0..<card (set (tokens @ [w]))]"
    using assms by (simp add: card len first_occurrence_ix_def del: set_append)
  moreover have "\<forall>v \<in> set (tokens @ [w]).
      map_of (d @ [(w, length d)]) v = Some (card (set (takeWhile (\<lambda>x. x \<noteq> v) (tokens @ [w]))))"
    using old fresh by auto
  ultimately show ?thesis unfolding new first_occurrence_ix_def by blast
qed

lemma fold_add_token_first_occurrence:
  "first_occurrence_ix tokens (fold add_token tokens [])"
proof (induction tokens rule: rev_induct)
  case Nil
  then show ?case by (simp add: first_occurrence_ix_def)
next
  case (snoc w tokens)
  then show ?case by (simp add: add_token_first_occurrence)
qed

lemma word_loop_flat:
  "fold (\<lambda>(sent, tags) d. fold add_token sent d) td d = fold add_token (concat (map fst td)) d"
  by (induction td arbitrary: d) (auto simp add: case_prod_beta)

lemma sentence_loop_flat:
  "fold (\<lambda>w d. fold add_token w d) sent d = fold add_token (concat sent) d"
  by (induction sent arbitrary: d) auto

lemma char_loop_flat:
  "fold (\<lambda>(sent, tags) d. fold (\<lambda>w d. fold add_token w d) sent d) td d
     = fold add_token (concat (concat (map fst td))) d"
  by (induction td arbitrary: d) (auto simp add: case_prod_beta sentence_loop_flat)

text \<open>
  Claim C2. For every training data, \<open>word_to_ix\<close> (tokens: the words of the
  sentences, in order) and \<open>char_to_ix\<close> (tokens: the characters of the words of the
  sentences, in order) give every distinct token exactly one index, the indices are
  \<open>0, ..., n-1\<close> for \<open>n\<close> distinct tokens, and they are assigned in the order of the
  tokens' first occurrences.
\<close>

theorem index_builder_first_occurrence:
  "first_occurrence_ix (concat (map fst td)) (word_to_ix td) \<and>
   first_occurrence_ix (concat (concat (map fst tc))) (char_to_ix tc)"
  by (simp add: word_to_ix_def char_to_ix_def word_loop_flat char_loop_flat
      fold_add_token_first_occurrence)

lemma word_to_ix_training_data:
  "word_to_ix training_data =
     [(''The'', 0), (''dog'', 1), (''ate'', 2), (''the'', 3), (''apple'', 4),
      (''Everybody'', 5), (''read'', 6), (''that'', 7), (''book'', 8)]"
  by (simp add: word_to_ix_def training_data_def add_token_def)

theorem index_builder_first_occurrence_witness:
  "first_occurrence_ix (concat (map fst training_data)) (word_to_ix training_data) \<and>
   first_occurrence_ix (concat (concat (map fst training_data))) (char_to_ix training_data) \<and>
   map_of (word_to_ix training_data) ''Everybody'' = Some 5"
  using index_builder_first_occurrence[of training_data training_data]
  by (simp add: word_to_ix_training_data)

subsection \<open>The letter and category encodings\<close>

lemma length_all_letters: "length all_letters = 58"
  by (simp add: all_letters_def ascii_letters_def str_def)

lemma n_letters_eq: "n_letters = 59"
  by (simp add: n_letters_def length_all_letters)

lemma first_index_less: "x \<in> set xs \<Longrightarrow> length (takeWhile (\<lambda>y. y \<noteq> x) xs) < length xs"
  by (induction xs) auto

lemma first_index_nth: "x \<in> set xs \<Longrightarrow> xs ! length (takeWhile (\<lambda>y. y \<noteq> x) xs) = x"
  by (induction xs) auto

lemma first_index_before:
  "j < length (takeWhile (\<lambda>y. y \<noteq> x) xs) \<Longrightarrow> xs ! j \<noteq> x"
  by (metis (mono_tags, lifting) nth_mem set_takeWhileD takeWhile_nth)

lemma find_member:
  "c \<in> set s \<Longrightarrow> 0 \<le> find_str s c \<and> find_str s c < int (length s) \<and> s ! nat (find_str s c) = c"
  by (simp add: find_str_def first_index_less first_index_nth)

lemma find_missing: "c \<notin> set s \<Longrightarrow> find_str s c = - 1"
  by (simp add: find_str_def)

lemma find_range: "- 1 \<le> find_str s c \<and> find_str s c < int (length s)"
  using first_index_less[of c s] by (auto simp add: find_str_def)

lemma set_item_letter:
  "length row = n_letters \<Longrightarrow>
   set_item row (find_str all_letters c) v = Inr (row[letter_position c := v])"
  using find_range[of all_letters c] find_member[of c all_letters]
  by (auto simp add: set_item_def Let_def letter_position_def n_letters_def find_missing
      nat_add_distrib)

lemma letter_position_less: "letter_position c < n_letters"
  using find_member[of c all_letters]
  by (auto simp add: letter_position_def n_letters_def)

lemma inputTensor_loop_from:
  "i \<le> length line \<Longrightarrow> length tensor = length line \<Longrightarrow>
   (\<forall>j. i \<le> j \<and> j < length line \<longrightarrow> tensor ! j = [zeros n_letters]) \<Longrightarrow>
   inputTensor_loop line [i..<length line] tensor
     = Inr (take i tensor @ map encode_letter (drop i line))"
proof (induction "length line - i" arbitrary: i tensor)
  case 0
  then show ?case by simp
next
  case (Suc d)
  then have lt: "i < length line" by simp
  have row: "tensor ! i ! 0 = zeros n_letters"
    using Suc.prems lt by simp
  let ?t = "tensor[i := encode_letter (line ! i)]"
  have step: "inputTensor_loop line [i..<length line] tensor
      = inputTensor_loop line [Suc i..<length line] ?t"
    using lt by (simp add: upt_conv_Cons row set_item_letter zeros_def encode_letter_def)
  have "inputTensor_loop line [Suc i..<length line] ?t
      = Inr (take (Suc i) ?t @ map encode_letter (drop (Suc i) line))"
    using Suc.hyps Suc.prems lt by (intro Suc.hyps(1)) auto
  moreover have "take (Suc i) ?t = take i tensor @ [encode_letter (line ! i)]"
    using lt Suc.prems(2) by (simp add: take_Suc_conv_app_nth)
  moreover have "drop i line = line ! i # drop (Suc i) line"
    using lt by (simp add: Cons_nth_drop_Suc)
  ultimately show ?case using step by simp
qed

lemma inputTensor_eq: "inputTensor line = Inr (map encode_letter line)"
  using inputTensor_loop_from[of 0 line "replicate (length line) [zeros n_letters]"]
  by (simp add: inputTensor_def)


lemma set_item_nat:
  "li < length xs \<Longrightarrow> set_item xs (int li) v = Inr (xs[li := v])"
  by (simp add: set_item_def Let_def)

lemma one_hot_update: "p < n \<Longrightarrow> one_hot n p ((zeros n)[p := 1])"
  by (simp add: one_hot_def zeros_def nth_list_update)

lemma categoryTensor_member:
  assumes "cat \<in> set categories"
  shows "categoryTensor categories cat
    = Inr [(zeros (length categories))[length (takeWhile (\<lambda>y. y \<noteq> cat) categories) := 1]]"
  using assms first_index_less[OF assms]
  by (simp add: categoryTensor_def list_index_def set_item_nat zeros_def)

text \<open>
  Claim C3. For a category of \<open>all_categories\<close>, \<open>categoryTensor\<close> returns one row
  with a one at the category's (first) position in \<open>all_categories\<close> and zero at every
  other position. For a line whose characters all occur in \<open>all_letters\<close>,
  \<open>inputTensor\<close> returns one row per character, each with a one at that character's
  position in \<open>all_letters\<close> and zero at every other position.
\<close>

theorem one_hot_encodings:
  "(cat \<in> set categories \<longrightarrow>
      (\<exists>li row. categoryTensor categories cat = Inr [row] \<and>
         li < length categories \<and> categories ! li = cat \<and>
         (\<forall>j < li. categories ! j \<noteq> cat) \<and>
         one_hot (length categories) li row)) \<and>
   (set line \<subseteq> set all_letters \<longrightarrow>
      (\<exists>tensor. inputTensor line = Inr tensor \<and> length tensor = length line \<and>
         (\<forall>li < length line. \<exists>p row. tensor ! li = [row] \<and>
            p < length all_letters \<and> all_letters ! p = line ! li \<and>
            one_hot n_letters p row)))"
proof (intro conjI impI)
  assume mem: "cat \<in> set categories"
  let ?li = "length (takeWhile (\<lambda>y. y \<noteq> cat) categories)"
  have "?li < length categories" by (rule first_index_less[OF mem])
  moreover have "categories ! ?li = cat" by (rule first_index_nth[OF mem])
  moreover have "\<forall>j < ?li. categories ! j \<noteq> cat" by (simp add: first_index_before)
  ultimately show "\<exists>li row. categoryTensor categories cat = Inr [row] \<and>
         li < length categories \<and> categories ! li = cat \<and>
         (\<forall>j < li. categories ! j \<noteq> cat) \<and> one_hot (length categories) li row"
    using categoryTensor_member[OF mem] one_hot_update by blast
next
  assume sub: "set line \<subseteq> set all_letters"
  have "\<exists>p row. map encode_letter line ! li = [row] \<and>
            p < length all_letters \<and> all_letters ! p = line ! li \<and>
            one_hot n_letters p row" if "li < length line" for li
  proof -
    have mem: "line ! li \<in> set all_letters" using sub that by auto
    let ?p = "letter_position (line ! li)"
    have "?p < length all_letters" "all_letters ! ?p = line ! li"
      using find_member[OF mem] mem by (auto simp add: letter_position_def)
    moreover have "one_hot n_letters ?p ((zeros n_letters)[?p := 1])"
      by (rule one_hot_update[OF letter_position_less])
    ultimately show ?thesis using that by (auto simp add: encode_letter_def)
  qed
  then show "\<exists>tensor. inputTensor line = Inr tensor \<and> length tensor = length line \<and>
         (\<forall>li < length line. \<exists>p row. tensor ! li = [row] \<and>
            p < length all_letters \<and> all_letters ! p = line ! li \<and>
            one_hot n_letters p row)"
    by (simp add: inputTensor_eq)
qed

theorem one_hot_encodings_witness:
  "str ''Greek'' \<in> set [str ''Arabic'', str ''Greek''] \<and>
   (\<exists>li row. categoryTensor [str ''Arabic'', str ''Greek''] (str ''Greek'') = Inr [row] \<and>
         li < length [str ''Arabic'', str ''Greek''] \<and>
         [str ''Arabic'', str ''Greek''] ! li = str ''Greek'' \<and>
         (\<forall>j < li. [str ''Arabic'', str ''Greek''] ! j \<noteq> str ''Greek'') \<and>
         one_hot (length [str ''Arabic'', str ''Greek'']) li row) \<and>
   set (str ''Ab'') \<subseteq> set all_letters \<and>
   (\<exists>tensor. inputTensor (str ''Ab'') = Inr tensor \<and> length tensor = length (str ''Ab'') \<and>
         (\<forall>li < length (str ''Ab''). \<exists>p row. tensor ! li = [row] \<and>
            p < length all_letters \<and> all_letters ! p = str ''Ab'' ! li \<and>
            one_hot n_letters p row))"
proof -
  have h1: "str ''Greek'' \<in> set [str ''Arabic'', str ''Greek'']" by simp
  have h2: "set (str ''Ab'') \<subseteq> set all_letters"
    by (simp add: all_letters_def ascii_letters_def str_def)
  show ?thesis
    using one_hot_encodings[of "str ''Greek''" "[str ''Arabic'', str ''Greek'']" "str ''Ab''"] h1 h2
    by blast
qed

subsection \<open>Round trips\<close>

lemma hot_position_update: "p < n \<Longrightarrow> hot_position ((zeros n)[p := 1]) = p"
proof (induction n arbitrary: p)
  case 0
  then show ?case by simp
next
  case (Suc n)
  then show ?case
    by (cases p) (auto simp add: hot_position_def zeros_def)
qed

lemma decode_encode_letter:
  "c \<in> set all_letters \<Longrightarrow> decode_row (encode_letter c) = Some c"
proof -
  assume mem: "c \<in> set all_letters"
  have "letter_position c < length all_letters" "all_letters ! letter_position c = c"
    using find_member[OF mem] mem by (auto simp add: letter_position_def)
  then show ?thesis
    using letter_position_less[of c]
    by (simp add: decode_row_def encode_letter_def hot_position_update)
qed

lemma inverse_ix_entry:
  "distinct (map snd d) \<Longrightarrow> (w, i) \<in> set d \<Longrightarrow> inverse_ix d i = Some w"
proof -
  assume d: "distinct (map snd d)" and mem: "(w, i) \<in> set d"
  have "map fst (map (\<lambda>(k, v). (v, k)) d) = map snd d" by (induction d) auto
  then have "distinct (map fst (map (\<lambda>(k, v). (v, k)) d))" using d by (simp only:)
  moreover have "(i, w) \<in> set (map (\<lambda>(k, v). (v, k)) d)" using mem by force
  ultimately show ?thesis unfolding inverse_ix_def by (rule map_of_is_SomeI)
qed

lemma lookup_indices_known:
  "set seq \<subseteq> fst ` set to_ix \<Longrightarrow>
   \<exists>idxs. lookup_indices seq to_ix = Inr idxs \<and> length idxs = length seq \<and>
     (\<forall>j < length seq. map_of to_ix (seq ! j) = Some (idxs ! j))"
proof (induction seq)
  case Nil
  then show ?case by simp
next
  case (Cons w ws)
  then obtain idxs where ih: "lookup_indices ws to_ix = Inr idxs" "length idxs = length ws"
    "\<forall>j < length ws. map_of to_ix (ws ! j) = Some (idxs ! j)" by auto
  from Cons.prems have "w \<in> fst ` set to_ix" by simp
  then obtain i where i: "map_of to_ix w = Some i"
    by (metis domD dom_map_of_conv_image_fst)
  have "\<forall>j < length (w # ws). map_of to_ix ((w # ws) ! j) = Some ((i # idxs) ! j)"
    using ih(3) i by (auto simp add: nth_Cons split: nat.splits)
  then show ?case using ih i by simp
qed

lemma prepare_sequence_known:
  assumes keys: "set seq \<subseteq> fst ` set to_ix"
    and long: "list_all fits_long (map snd to_ix)"
  shows "\<exists>idxs. prepare_sequence seq to_ix = Inr idxs \<and> length idxs = length seq \<and>
     (\<forall>j < length seq. map_of to_ix (seq ! j) = Some (idxs ! j))"
proof -
  from lookup_indices_known[OF keys] obtain idxs where
    idxs: "lookup_indices seq to_ix = Inr idxs" "length idxs = length seq"
      "\<forall>j < length seq. map_of to_ix (seq ! j) = Some (idxs ! j)"
    by blast
  have "fits_long (idxs ! j)" if "j < length idxs" for j
  proof -
    have "(seq ! j, idxs ! j) \<in> set to_ix"
      using idxs(2,3) that by (simp add: map_of_SomeD)
    then have "idxs ! j \<in> set (map snd to_ix)" by force
    then show ?thesis using long by (auto simp add: list_all_iff)
  qed
  then have "list_all fits_long idxs" by (simp add: list_all_length)
  then show ?thesis using idxs by (simp add: prepare_sequence_def)
qed

text \<open>
  Claim C4, as stated, fails for \<open>prepare_sequence\<close> in two ways. When two keys of
  \<open>to_ix\<close> share an index, the sequences \<open>[a]\<close> and \<open>[b]\<close> get the same indices, so
  no decoding recovers both, and the inverse of \<open>to_ix\<close> gives \<open>a\<close> for \<open>b\<close>. And
  when a key's index is \<open>2^63\<close>, \<open>prepare_sequence\<close> raises and produces no indices.
\<close>

theorem prepare_sequence_round_trip_counterexample:
  "set [''b''] \<subseteq> fst ` set [(''a'', 0 :: nat), (''b'', 0)] \<and>
   prepare_sequence [''b''] [(''a'', 0), (''b'', 0)] = Inr [0] \<and>
   prepare_sequence [''a''] [(''a'', 0), (''b'', 0)] = Inr [0] \<and>
   map (inverse_ix [(''a'', 0), (''b'', 0)]) [0] = [Some ''a''] \<and>
   [Some ''a''] \<noteq> map Some [''b''] \<and>
   set [''a''] \<subseteq> fst ` set [(''a'', 2 ^ 63 :: nat)] \<and>
   prepare_sequence [''a''] [(''a'', 2 ^ 63)] = Inl (RuntimeError long_overflow)"
  by (simp add: prepare_sequence_def inverse_ix_def fits_long_def)

text \<open>
  Claim C4, amended. For every string whose characters all occur in \<open>all_letters\<close>
  (the empty string included), decoding each row that \<open>inputTensor\<close> builds, by the
  position of its one in \<open>all_letters\<close>, gives the string back. For every \<open>to_ix\<close>
  in which no two keys share an index and every index is a signed 64-bit integer, and
  every sequence whose tokens are all keys of \<open>to_ix\<close>, \<open>prepare_sequence\<close> returns
  indices that the inverse of \<open>to_ix\<close> maps back to the sequence.
\<close>

theorem encode_decode_round_trip:
  "(set line \<subseteq> set all_letters \<longrightarrow>
      (\<exists>tensor. inputTensor line = Inr tensor \<and> map decode_row tensor = map Some line)) \<and>
   (distinct (map snd to_ix) \<and> list_all fits_long (map snd to_ix) \<and>
    set seq \<subseteq> fst ` set to_ix \<longrightarrow>
      (\<exists>idxs. prepare_sequence seq to_ix = Inr idxs \<and>
         map (inverse_ix to_ix) idxs = map Some seq))"
proof (intro conjI impI)
  assume sub: "set line \<subseteq> set all_letters"
  then have "map decode_row (map encode_letter line) = map Some line"
    by (auto simp add: decode_encode_letter)
  then show "\<exists>tensor. inputTensor line = Inr tensor \<and> map decode_row tensor = map Some line"
    by (simp add: inputTensor_eq)
next
  assume a: "distinct (map snd to_ix) \<and> list_all fits_long (map snd to_ix) \<and>
    set seq \<subseteq> fst ` set to_ix"
  then obtain idxs where idxs: "prepare_sequence seq to_ix = Inr idxs" "length idxs = length seq"
    "\<forall>j < length seq. map_of to_ix (seq ! j) = Some (idxs ! j)"
    using prepare_sequence_known[of seq to_ix] by blast
  have "inverse_ix to_ix (idxs ! j) = Some (seq ! j)" if "j < length seq" for j
  proof -
    have "(seq ! j, idxs ! j) \<in> set to_ix" using idxs(3) that by (simp add: map_of_SomeD)
    then show ?thesis using a by (simp add: inverse_ix_entry)
  qed
  then have "map (inverse_ix to_ix) idxs = map Some seq"
    using idxs(2) by (simp add: list_eq_iff_nth_eq)
  then show "\<exists>idxs. prepare_sequence seq to_ix = Inr idxs \<and>
         map (inverse_ix to_ix) idxs = map Some seq"
    using idxs(1) by blast
qed

theorem encode_decode_round_trip_witness:
  "set (str ''Ab'') \<subseteq> set all_letters \<and>
   (\<exists>tensor. inputTensor (str ''Ab'') = Inr tensor \<and>
      map decode_row tensor = map Some (str ''Ab'')) \<and>
   distinct (map snd (word_to_ix training_data)) \<and>
   list_all fits_long (map snd (word_to_ix training_data)) \<and>
   set [''Everybody'', ''read'', ''that'', ''book''] \<subseteq> fst ` set (word_to_ix training_data) \<and>
   (\<exists>idxs. prepare_sequence [''Everybody'', ''read'', ''that'', ''book'']
              (word_to_ix training_data) = Inr idxs \<and>
      map (inverse_ix (word_to_ix training_data)) idxs
        = map Some [''Everybody'', ''read'', ''that'', ''book''])"
proof -
  have h1: "set (str ''Ab'') \<subseteq> set all_letters"
    by (simp add: all_letters_def ascii_letters_def str_def)
  have h2: "distinct (map snd (word_to_ix training_data))"
    by (simp add: word_to_ix_training_data)
  have h3: "set [''Everybody'', ''read'', ''that'', ''book''] \<subseteq> fst ` set (word_to_ix training_data)"
    by (simp add: word_to_ix_training_data)
  have h4: "list_all fits_long (map snd (word_to_ix training_data))"
    by (simp add: word_to_ix_training_data fits_long_def)
  show ?thesis
    using encode_decode_round_trip[of "str ''Ab''" "word_to_ix training_data"
        "[''Everybody'', ''read'', ''that'', ''book'']"] h1 h2 h3 h4
    by blast
qed


subsection \<open>What the loader lets through\<close>

lemma unicodeToAscii_letters: "set (unicodeToAscii lib s) \<subseteq> set all_letters"
  by (auto simp add: unicodeToAscii_def)

lemma targetTensor_range:
  "set line \<subseteq> set all_letters \<Longrightarrow> x \<in> set (targetTensor line) \<Longrightarrow> 0 \<le> x \<and> x < int n_letters"
proof -
  assume sub: "set line \<subseteq> set all_letters" and x: "x \<in> set (targetTensor line)"
  from x consider li where "1 \<le> li" "li < length line" "x = find_str all_letters (line ! li)"
    | "x = int n_letters - 1"
    by (auto simp add: targetTensor_def)
  then show ?thesis
  proof cases
    case 1
    then have "line ! li \<in> set all_letters" using sub by auto
    then show ?thesis using find_member[of "line ! li" all_letters] 1 by (simp add: n_letters_def)
  next
    case 2
    then show ?thesis by (simp add: n_letters_def)
  qed
qed

text \<open>
  Claim C9. Whatever the library's normalisation and categories are, every character
  of \<open>unicodeToAscii s\<close> occurs in \<open>all_letters\<close>, and \<open>unicodeToAscii s\<close> is the
  normalised string with the other characters left out, in the same order (nothing is
  put in their place). So every line that \<open>readLines\<close>
  returns has only characters of \<open>all_letters\<close>, \<open>find\<close> returns a position of
  \<open>all_letters\<close> for each of them, and every entry of \<open>targetTensor\<close> of such a line
  is a valid index below \<open>n_letters\<close>.
\<close>

theorem unicodeToAscii_only_letters:
  "set (unicodeToAscii lib s) \<subseteq> set all_letters \<and>
   unicodeToAscii lib s
     = filter (\<lambda>c. c \<in> set (unicodeToAscii lib s)) (normalize_NFD lib s) \<and>
   (\<forall>lines. readLines lib fs filename = Inr lines \<longrightarrow>
      (\<forall>line \<in> set lines.
         set line \<subseteq> set all_letters \<and>
         (\<forall>c \<in> set line. 0 \<le> find_str all_letters c \<and>
            find_str all_letters c < int (length all_letters)) \<and>
         (\<forall>x \<in> set (targetTensor line). 0 \<le> x \<and> x < int n_letters)))"
proof (intro conjI allI impI ballI)
  show "set (unicodeToAscii lib s) \<subseteq> set all_letters" by (rule unicodeToAscii_letters)
next
  show "unicodeToAscii lib s
     = filter (\<lambda>c. c \<in> set (unicodeToAscii lib s)) (normalize_NFD lib s)"
    unfolding unicodeToAscii_def by (rule filter_cong) auto
next
  fix lines line
  assume r: "readLines lib fs filename = Inr lines" and l: "line \<in> set lines"
  then obtain raw where "line = unicodeToAscii lib raw"
    by (auto simp add: readLines_def split: sum.splits)
  then show sub: "set line \<subseteq> set all_letters" by (simp add: unicodeToAscii_letters)
  {
    fix c assume "c \<in> set line"
    then have "c \<in> set all_letters" using sub by auto
    then show "0 \<le> find_str all_letters c" "find_str all_letters c < int (length all_letters)"
      using find_member[of c all_letters] by simp_all
  }
  {
    fix x assume "x \<in> set (targetTensor line)"
    then show "0 \<le> x" "x < int n_letters" using targetTensor_range[OF sub] by simp_all
  }
qed

lemma readLines_one_file:
  "readLines ascii_unicodedata one_file (str ''data/names_data/names/Greek.txt'')
     = Inr [str ''Ab'', str ''c d'']"
  by (simp add: readLines_def one_file_def ascii_unicodedata_def strip_def unicodeToAscii_def
      all_letters_def ascii_letters_def str_def)

theorem unicodeToAscii_only_letters_witness:
  "readLines ascii_unicodedata one_file (str ''data/names_data/names/Greek.txt'')
     = Inr [str ''Ab'', str ''c d''] \<and>
   set (unicodeToAscii ascii_unicodedata (str ''Ab!'')) \<subseteq> set all_letters \<and>
   set (str ''Ab'') \<subseteq> set all_letters \<and> set (str ''c d'') \<subseteq> set all_letters \<and>
   0 \<le> find_str all_letters (of_char CHR ''A'') \<and>
   find_str all_letters (of_char CHR ''A'') < int (length all_letters)"
proof -
  note inst = unicodeToAscii_only_letters[of ascii_unicodedata "str ''Ab!''" one_file
      "str ''data/names_data/names/Greek.txt''"]
  from inst have a: "set (unicodeToAscii ascii_unicodedata (str ''Ab!'')) \<subseteq> set all_letters"
    by blast
  from inst readLines_one_file
  have b: "\<forall>line \<in> set [str ''Ab'', str ''c d''].
         set line \<subseteq> set all_letters \<and>
         (\<forall>c \<in> set line. 0 \<le> find_str all_letters c \<and>
            find_str all_letters c < int (length all_letters))"
    by blast
  then have c: "set (str ''Ab'') \<subseteq> set all_letters" "set (str ''c d'') \<subseteq> set all_letters"
    by simp_all
  have "of_char CHR ''A'' \<in> set (str ''Ab'')" by (simp add: str_def)
  with b have "0 \<le> find_str all_letters (of_char CHR ''A'') \<and>
      find_str all_letters (of_char CHR ''A'') < int (length all_letters)"
    by simp
  with a c readLines_one_file show ?thesis by blast
qed


subsection \<open>Characters outside the alphabet\<close>

lemma targetTensor_nth:
  "Suc li < length line \<Longrightarrow> targetTensor line ! li = find_str all_letters (line ! Suc li)"
proof -
  assume a: "Suc li < length line"
  then have "li < length [1..<length line]" by simp
  then have "targetTensor line ! li
      = map (\<lambda>li. find_str all_letters (line ! li)) [1..<length line] ! li"
    by (simp add: targetTensor_def nth_append)
  also have "\<dots> = find_str all_letters (line ! ([1..<length line] ! li))"
    using a by (intro nth_map) simp
  also have "[1..<length line] ! li = 1 + li" using a by (intro nth_upt) simp
  also have "1 + li = Suc li" by simp
  finally show ?thesis .
qed

lemma exclamation_unknown: "of_char CHR ''!'' \<notin> set all_letters"
  by (simp add: all_letters_def ascii_letters_def str_def)

text \<open>
  Claim C10, as stated, fails for \<open>targetTensor\<close>: the exclamation mark does not occur
  in \<open>all_letters\<close>, and its entry in the target of \<open>a!\<close> is -1, not
  \<open>n_letters - 1\<close>.
\<close>

theorem targetTensor_unknown_counterexample:
  "of_char CHR ''!'' \<notin> set all_letters \<and>
   targetTensor (str ''a!'') = [- 1, int n_letters - 1] \<and>
   (- 1 :: int) \<noteq> int n_letters - 1"
  by (simp add: targetTensor_def find_str_def n_letters_def all_letters_def ascii_letters_def
      str_def)

text \<open>
  Claim C10, amended. For every string, \<open>inputTensor\<close> returns a tensor, and the row
  of a character that does not occur in \<open>all_letters\<close> has its one at position
  \<open>n_letters - 1\<close>, the end-of-sequence position. \<open>targetTensor\<close> returns one entry
  per character after the first and a final \<open>n_letters - 1\<close>; the entry of a character
  that does not occur in \<open>all_letters\<close> is the -1 that \<open>find\<close> returned.
\<close>

theorem unknown_letter_encoding:
  "(\<exists>tensor. inputTensor line = Inr tensor \<and> length tensor = length line \<and>
      (\<forall>li < length line. line ! li \<notin> set all_letters \<longrightarrow>
         (\<exists>row. tensor ! li = [row] \<and> one_hot n_letters (n_letters - 1) row))) \<and>
   length (targetTensor line) = length line - 1 + 1 \<and>
   last (targetTensor line) = int n_letters - 1 \<and>
   (\<forall>li. Suc li < length line \<and> line ! Suc li \<notin> set all_letters \<longrightarrow>
      targetTensor line ! li = - 1)"
proof (intro conjI)
  have "\<exists>row. map encode_letter line ! li = [row] \<and> one_hot n_letters (n_letters - 1) row"
    if "li < length line" "line ! li \<notin> set all_letters" for li
    using that one_hot_update[of "n_letters - 1" n_letters]
    by (simp add: encode_letter_def letter_position_def n_letters_def)
  then show "\<exists>tensor. inputTensor line = Inr tensor \<and> length tensor = length line \<and>
      (\<forall>li < length line. line ! li \<notin> set all_letters \<longrightarrow>
         (\<exists>row. tensor ! li = [row] \<and> one_hot n_letters (n_letters - 1) row))"
    by (simp add: inputTensor_eq)
next
  show "length (targetTensor line) = length line - 1 + 1" by (simp add: targetTensor_def)
next
  show "last (targetTensor line) = int n_letters - 1" by (simp add: targetTensor_def)
next
  show "\<forall>li. Suc li < length line \<and> line ! Suc li \<notin> set all_letters \<longrightarrow>
      targetTensor line ! li = - 1"
    by (simp add: targetTensor_nth find_missing)
qed

theorem unknown_letter_encoding_witness:
  "1 < length (str ''a!'') \<and> str ''a!'' ! 1 \<notin> set all_letters \<and>
   (\<exists>tensor row. inputTensor (str ''a!'') = Inr tensor \<and> tensor ! 1 = [row] \<and>
      one_hot n_letters (n_letters - 1) row) \<and>
   targetTensor (str ''a!'') ! 0 = - 1"
proof -
  have h1: "1 < length (str ''a!'')" by (simp add: str_def)
  have h2: "str ''a!'' ! 1 \<notin> set all_letters"
    using exclamation_unknown by (simp add: str_def)
  note inst = unknown_letter_encoding[of "str ''a!''"]
  from inst h1 h2 have a: "\<exists>tensor row. inputTensor (str ''a!'') = Inr tensor \<and>
      tensor ! 1 = [row] \<and> one_hot n_letters (n_letters - 1) row"
    by blast
  from inst h1 h2 have "targetTensor (str ''a!'') ! 0 = - 1"
    by (metis One_nat_def)
  with a h1 h2 show ?thesis by simp
qed


subsection \<open>The sampler\<close>

lemma inputTensor_letter: "inputTensor [c] = Inr [encode_letter c]"
  by (simp add: inputTensor_eq)

lemma sample_loop_step:
  "sample_loop rnn ct (Suc k) (input0 # rest) hidden name =
     (if topk1 rnn (fst (forward rnn ct input0 hidden)) = n_letters - 1 then Inr name
      else if topk1 rnn (fst (forward rnn ct input0 hidden)) < length all_letters then
        sample_loop rnn ct k
          [encode_letter (all_letters ! topk1 rnn (fst (forward rnn ct input0 hidden)))]
          (snd (forward rnn ct input0 hidden))
          (name @ [all_letters ! topk1 rnn (fst (forward rnn ct input0 hidden))])
      else Inl IndexError)"
  by (simp add: Let_def inputTensor_letter)

lemma sample_loop_letters:
  "sample_loop rnn ct k input hidden name = Inr r \<Longrightarrow>
   \<exists>idxs. r = name @ map (\<lambda>i. all_letters ! i) idxs \<and> length idxs \<le> k \<and>
     (\<forall>i \<in> set idxs. i < length all_letters)"
proof (induction k arbitrary: input hidden name)
  case 0
  then show ?case by simp
next
  case (Suc k)
  show ?case
  proof (cases input)
    case Nil
    then show ?thesis using Suc.prems by simp
  next
    case (Cons input0 rest)
    let ?topi = "topk1 rnn (fst (forward rnn ct input0 hidden))"
    show ?thesis
    proof (cases "?topi = n_letters - 1")
      case True
      then have "r = name" using Suc.prems Cons by (simp add: sample_loop_step del: sample_loop.simps)
      then show ?thesis by simp
    next
      case False
      show ?thesis
      proof (cases "?topi < length all_letters")
        case lt: True
        have "sample_loop rnn ct k [encode_letter (all_letters ! ?topi)]
            (snd (forward rnn ct input0 hidden)) (name @ [all_letters ! ?topi]) = Inr r"
          using Suc.prems Cons False lt by (simp add: sample_loop_step del: sample_loop.simps)
        from Suc.IH[OF this] obtain idxs where
          idxs: "r = (name @ [all_letters ! ?topi]) @ map (\<lambda>i. all_letters ! i) idxs"
            "length idxs \<le> k" "\<forall>i \<in> set idxs. i < length all_letters"
          by blast
        have "r = name @ map (\<lambda>i. all_letters ! i) (?topi # idxs)"
          using idxs(1) by simp
        moreover have "length (?topi # idxs) \<le> Suc k" using idxs(2) by simp
        moreover have "\<forall>i \<in> set (?topi # idxs). i < length all_letters"
          using idxs(3) lt by simp
        ultimately show ?thesis by blast
      next
        case ge: False
        then show ?thesis using Suc.prems Cons False by (simp add: sample_loop_step del: sample_loop.simps)
      qed
    qed
  qed
qed

lemma sample_loop_returns:
  "input \<noteq> [] \<Longrightarrow> (\<forall>out. topk1 rnn out < n_letters) \<Longrightarrow>
   \<exists>r. sample_loop rnn ct k input hidden name = Inr r"
proof (induction k arbitrary: input hidden name)
  case 0
  then show ?case by simp
next
  case (Suc k)
  then obtain input0 rest where Cons: "input = input0 # rest" by (cases input) auto
  let ?topi = "topk1 rnn (fst (forward rnn ct input0 hidden))"
  have "?topi < n_letters" using Suc.prems(2) by blast
  then have "?topi = n_letters - 1 \<or> ?topi < length all_letters"
    by (auto simp add: n_letters_def)
  moreover have "\<exists>r. sample_loop rnn ct k [encode_letter (all_letters ! ?topi)]
            (snd (forward rnn ct input0 hidden)) (name @ [all_letters ! ?topi]) = Inr r"
    using Suc.prems(2) by (intro Suc.IH) simp_all
  ultimately show ?case unfolding Cons sample_loop_step by auto
qed

lemma sample_eq_loop:
  "cat \<in> set categories \<Longrightarrow>
   sample categories rnn cat start_letter =
     sample_loop rnn
       [(zeros (length categories))[length (takeWhile (\<lambda>y. y \<noteq> cat) categories) := 1]]
       max_length (map encode_letter start_letter) (initHidden rnn) start_letter"
  by (simp add: sample_def categoryTensor_member inputTensor_eq)

lemma sample_letters:
  "sample categories rnn cat start_letter = Inr r \<Longrightarrow>
   \<exists>idxs. r = start_letter @ map (\<lambda>i. all_letters ! i) idxs \<and> length idxs \<le> max_length \<and>
     (\<forall>i \<in> set idxs. i < length all_letters)"
  by (auto simp add: sample_def inputTensor_eq split: sum.splits intro: sample_loop_letters)

text \<open>
  The bound that holds of the loop: whenever \<open>sample\<close> returns a name, the name is
  at most \<open>max_length\<close> characters longer than the start string, since the loop runs
  at most \<open>max_length\<close> times and appends one letter each time to a name that already
  holds the start string. And \<open>sample\<close> does return a name for every category of
  \<open>all_categories\<close> and every non-empty start string, when the highest output's index
  is an index of the network's \<open>n_letters\<close> outputs.
\<close>

lemma sample_length_le:
  "(sample categories rnn cat start_letter = Inr name \<longrightarrow>
      length name \<le> length start_letter + max_length) \<and>
   (cat \<in> set categories \<and> start_letter \<noteq> [] \<and> (\<forall>out. topk1 rnn out < n_letters) \<longrightarrow>
      (\<exists>name. sample categories rnn cat start_letter = Inr name))"
proof (intro conjI impI)
  assume "sample categories rnn cat start_letter = Inr name"
  from sample_letters[OF this] show "length name \<le> length start_letter + max_length"
    by auto
next
  assume a: "cat \<in> set categories \<and> start_letter \<noteq> [] \<and> (\<forall>out. topk1 rnn out < n_letters)"
  then have "map encode_letter start_letter \<noteq> []" by simp
  then show "\<exists>name. sample categories rnn cat start_letter = Inr name"
    using a by (simp add: sample_eq_loop sample_loop_returns)
qed

lemma always_a_loop:
  "sample_loop always_a ct k (input0 # rest) hidden name = Inr (name @ replicate k 97)"
proof (induction k arbitrary: input0 rest hidden name)
  case 0
  then show ?case by simp
next
  case (Suc k)
  have a: "all_letters ! 0 = 97" by (simp add: all_letters_def ascii_letters_def str_def)
  have "sample_loop always_a ct (Suc k) (input0 # rest) hidden name
      = sample_loop always_a ct k [encode_letter 97] hidden (name @ [97])"
    unfolding sample_loop_step
    by (simp add: always_a_def a n_letters_eq length_all_letters)
  then show ?case using Suc.IH[of "encode_letter 97" "[]"] by (simp add: replicate_app_Cons_same)
qed

lemma sample_always_a:
  "sample [str ''Russian''] always_a (str ''Russian'') (str ''A'')
     = Inr (str ''Aaaaaaaaaaaaaaaaaaaaa'')"
proof -
  have "sample [str ''Russian''] always_a (str ''Russian'') (str ''A'')
      = Inr (str ''A'' @ replicate max_length 97)"
    by (simp add: sample_eq_loop str_def always_a_loop)
  moreover have "str ''A'' @ replicate max_length 97 = str ''Aaaaaaaaaaaaaaaaaaaaa''"
    by (simp add: max_length_def str_def eval_nat_numeral)
  ultimately show ?thesis by simp
qed

text \<open>
  Claim C1. The string that \<open>sample\<close> returns is to be no longer than \<open>max_length\<close>,
  the maximum output length, which is 20. The code at a network that never emits the
  end-of-sequence index, for the category \<open>Russian\<close> and the start letter \<open>A\<close>:
  the loop appends a letter in each of its 20 iterations to a name that already holds
  the start letter, and the name returned has 21 characters.
\<close>

theorem sample_exceeds_max_length:
  "str ''Russian'' \<in> set [str ''Russian''] \<and>
   sample [str ''Russian''] always_a (str ''Russian'') (str ''A'')
     = Inr (str ''Aaaaaaaaaaaaaaaaaaaaa'') \<and>
   length (str ''Aaaaaaaaaaaaaaaaaaaaa'') = 21 \<and>
   max_length = 20"
  by (simp add: sample_always_a) (simp add: max_length_def str_def)

text \<open>
  Claim C5. At any iteration of the loop (any number of iterations left, any input,
  hidden state and name so far), if the index of the network's highest output is the
  end-of-sequence index \<open>n_letters - 1\<close>, the loop ends and the result is the name
  so far, with nothing appended. And every name \<open>sample\<close> returns is the start string
  followed by at most \<open>max_length\<close> letters, each the letter of \<open>all_letters\<close> at an
  emitted index other than the end-of-sequence index.
\<close>

theorem sample_stops_at_EOS:
  "(topk1 rnn (fst (forward rnn ct input0 hidden)) = n_letters - 1 \<longrightarrow>
      sample_loop rnn ct (Suc k) (input0 # rest) hidden name = Inr name) \<and>
   (sample categories rnn cat start_letter = Inr r \<longrightarrow>
      (\<exists>idxs. r = start_letter @ map (\<lambda>i. all_letters ! i) idxs \<and>
         length idxs \<le> max_length \<and>
         (\<forall>i \<in> set idxs. i \<noteq> n_letters - 1 \<and> i < length all_letters)))"
proof (intro conjI impI)
  assume "topk1 rnn (fst (forward rnn ct input0 hidden)) = n_letters - 1"
  then show "sample_loop rnn ct (Suc k) (input0 # rest) hidden name = Inr name"
    by (simp add: sample_loop_step del: sample_loop.simps)
next
  assume "sample categories rnn cat start_letter = Inr r"
  from sample_letters[OF this] obtain idxs where
    idxs: "r = start_letter @ map (\<lambda>i. all_letters ! i) idxs" "length idxs \<le> max_length"
      "\<forall>i \<in> set idxs. i < length all_letters"
    by blast
  have "\<forall>i \<in> set idxs. i \<noteq> n_letters - 1 \<and> i < length all_letters"
    using idxs(3) by (auto simp add: n_letters_def)
  with idxs(1,2) show "\<exists>idxs. r = start_letter @ map (\<lambda>i. all_letters ! i) idxs \<and>
         length idxs \<le> max_length \<and>
         (\<forall>i \<in> set idxs. i \<noteq> n_letters - 1 \<and> i < length all_letters)"
    by blast
qed

lemma counting_net_continues:
  "h < 2 \<Longrightarrow>
   sample_loop counting_net ct (Suc k) (input0 # rest) h name =
     sample_loop counting_net ct k [encode_letter (all_letters ! h)] (Suc h)
       (name @ [all_letters ! h])"
  by (simp add: sample_loop_step counting_net_def n_letters_eq length_all_letters
      del: sample_loop.simps)

lemma counting_net_stops:
  "\<not> h < 2 \<Longrightarrow> sample_loop counting_net ct (Suc k) (input0 # rest) h name = Inr name"
  by (simp add: sample_loop_step counting_net_def del: sample_loop.simps)

lemma counting_net_run:
  "sample_loop counting_net ct (Suc (Suc (Suc k))) (input0 # rest) 0 name
     = Inr (name @ [97, 98])"
proof -
  have a: "all_letters ! 0 = 97" "all_letters ! Suc 0 = 98"
    by (simp_all add: all_letters_def ascii_letters_def str_def)
  have "sample_loop counting_net ct (Suc (Suc (Suc k))) (input0 # rest) 0 name
      = sample_loop counting_net ct (Suc (Suc k)) [encode_letter (all_letters ! 0)] (Suc 0)
          (name @ [all_letters ! 0])"
    by (rule counting_net_continues) simp
  also have "\<dots> = sample_loop counting_net ct (Suc k) [encode_letter (all_letters ! Suc 0)]
          (Suc (Suc 0)) ((name @ [all_letters ! 0]) @ [all_letters ! Suc 0])"
    by (rule counting_net_continues) simp
  also have "\<dots> = Inr ((name @ [all_letters ! 0]) @ [all_letters ! Suc 0])"
    by (rule counting_net_stops) simp
  finally show ?thesis by (simp add: a)
qed

lemma sample_counting_net:
  "sample [str ''Russian''] counting_net (str ''Russian'') (str ''A'') = Inr (str ''Aab'')"
proof -
  have m: "max_length = Suc (Suc (Suc 17))" by (simp add: max_length_def)
  have i: "initHidden counting_net = 0" by (simp add: counting_net_def)
  have "sample [str ''Russian''] counting_net (str ''Russian'') (str ''A'')
      = sample_loop counting_net [(zeros (length [str ''Russian'']))[0 := 1]]
          max_length [encode_letter 65] 0 [65]"
    by (simp add: sample_eq_loop i str_def)
  also have "\<dots> = Inr ([65] @ [97, 98])"
    unfolding m by (rule counting_net_run)
  finally show ?thesis by (simp add: str_def)
qed

theorem sample_stops_at_EOS_witness:
  "topk1 counting_net (fst (forward counting_net [[1]] [[]] 2)) = n_letters - 1 \<and>
   sample_loop counting_net [[1]] (Suc 17) [[[]]] 2 (str ''Aab'') = Inr (str ''Aab'') \<and>
   sample [str ''Russian''] counting_net (str ''Russian'') (str ''A'') = Inr (str ''Aab'') \<and>
   (\<exists>idxs. str ''Aab'' = str ''A'' @ map (\<lambda>i. all_letters ! i) idxs \<and>
      length idxs \<le> max_length \<and>
      (\<forall>i \<in> set idxs. i \<noteq> n_letters - 1 \<and> i < length all_letters))"
proof -
  have h: "topk1 counting_net (fst (forward counting_net [[1]] [[]] 2)) = n_letters - 1"
    by (simp add: counting_net_def)
  note inst = sample_stops_at_EOS[of counting_net "[[1]]" "[[]]" 2 17 "[]" "str ''Aab''"
      "[str ''Russian'']" "str ''Russian''" "str ''A''" "str ''Aab''"]
  from inst h have "sample_loop counting_net [[1]] (Suc 17) [[[]]] 2 (str ''Aab'')
      = Inr (str ''Aab'')"
    by blast
  moreover from inst sample_counting_net
  have "\<exists>idxs. str ''Aab'' = str ''A'' @ map (\<lambda>i. all_letters ! i) idxs \<and>
      length idxs \<le> max_length \<and>
      (\<forall>i \<in> set idxs. i \<noteq> n_letters - 1 \<and> i < length all_letters)"
    by blast
  ultimately show ?thesis using h sample_counting_net by blast
qed


subsection \<open>The guard of the loading cell\<close>

lemma load_files_categories:
  "load_files lib fs files data = Inr data' \<Longrightarrow>
   length (all_categories data') = length (all_categories data) + length files"
proof (induction files arbitrary: data)
  case Nil
  then show ?case by simp
next
  case (Cons filename rest)
  then show ?case
    by (auto simp add: Let_def split: sum.splits)
qed

text \<open>
  Claim C7. The loading cell raises the RuntimeError with the message that tells the
  user to download and extract the data if and only if \<open>glob.glob\<close> over the data
  path returns no file; with at least one file it either returns the corpus or fails with
  the error of reading a file, never with that RuntimeError.
\<close>

theorem data_not_found_iff_no_files:
  "load_data lib fs = Inl (RuntimeError data_not_found) \<longleftrightarrow> glob fs names_glob = []"
proof
  assume raised: "load_data lib fs = Inl (RuntimeError data_not_found)"
  then obtain data where
    d: "load_files lib fs (glob fs names_glob)
          \<lparr>category_lines = Map.empty, all_categories = []\<rparr> = Inr data"
      "length (all_categories data) = 0"
    by (auto simp add: load_data_def findFiles_def Let_def split: sum.splits if_splits)
  from load_files_categories[OF d(1)] d(2) show "glob fs names_glob = []" by simp
next
  assume "glob fs names_glob = []"
  then show "load_data lib fs = Inl (RuntimeError data_not_found)"
    by (simp add: load_data_def findFiles_def)
qed

subsection \<open>The tagger's training loop\<close>

lemma prepare_first_sentence:
  "prepare_sequence [''The'', ''dog'', ''ate'', ''the'', ''apple''] (word_to_ix training_data)
     = Inr [0, 1, 2, 3, 4]"
  by (simp add: prepare_sequence_def word_to_ix_training_data fits_long_def)

lemma prepare_second_sentence:
  "prepare_sequence [''Everybody'', ''read'', ''that'', ''book''] (word_to_ix training_data)
     = Inr [5, 6, 7, 8]"
  by (simp add: prepare_sequence_def word_to_ix_training_data fits_long_def)

lemma prepare_first_tags:
  "prepare_sequence [''DET'', ''NN'', ''V'', ''DET'', ''NN''] tag_to_ix = Inr [0, 1, 2, 0, 1]"
  by (simp add: prepare_sequence_def tag_to_ix_def fits_long_def)

lemma prepare_second_tags:
  "prepare_sequence [''NN'', ''V'', ''DET'', ''NN''] tag_to_ix = Inr [1, 2, 0, 1]"
  by (simp add: prepare_sequence_def tag_to_ix_def fits_long_def)

lemma train_sentence_first:
  "train_sentence torch
     ([''The'', ''dog'', ''ate'', ''the'', ''apple''], [''DET'', ''NN'', ''V'', ''DET'', ''NN'']) st =
     Inr (fold torch (sentence_calls [0, 1, 2, 3, 4] [0, 1, 2, 0, 1]) (fst st),
          snd st @ sentence_calls [0, 1, 2, 3, 4] [0, 1, 2, 0, 1])"
  by (simp add: train_sentence_def prepare_first_sentence prepare_first_tags
      do_call_def sentence_calls_def Let_def)

lemma train_sentence_second:
  "train_sentence torch
     ([''Everybody'', ''read'', ''that'', ''book''], [''NN'', ''V'', ''DET'', ''NN'']) st =
     Inr (fold torch (sentence_calls [5, 6, 7, 8] [1, 2, 0, 1]) (fst st),
          snd st @ sentence_calls [5, 6, 7, 8] [1, 2, 0, 1])"
  by (simp add: train_sentence_def prepare_second_sentence prepare_second_tags
      do_call_def sentence_calls_def Let_def)

lemma train_epoch_calls:
  "train_epoch torch training_data st = Inr (fold torch epoch_calls (fst st), snd st @ epoch_calls)"
proof -
  have "train_epoch torch
      [([''The'', ''dog'', ''ate'', ''the'', ''apple''], [''DET'', ''NN'', ''V'', ''DET'', ''NN'']),
       ([''Everybody'', ''read'', ''that'', ''book''], [''NN'', ''V'', ''DET'', ''NN''])] st
      = Inr (fold torch epoch_calls (fst st), snd st @ epoch_calls)"
    by (simp add: train_sentence_first train_sentence_second epoch_calls_def)
  then show ?thesis by (simp only: training_data_def)
qed

lemma train_epochs_calls:
  "train_epochs torch n st =
     Inr (fold torch (concat (replicate n epoch_calls)) (fst st),
          snd st @ concat (replicate n epoch_calls))"
  by (induction n arbitrary: st) (simp_all add: train_epoch_calls)

lemma filter_concat_replicate:
  "length (filter P (concat (replicate n xs))) = n * length (filter P xs)"
  by (induction n) simp_all

text \<open>
  Claim C8. For every behaviour of the framework and every initial model, the training
  loop ends without an exception after 300 epochs. Each epoch makes, for the first and
  then for the second training sentence, the calls zero_grad, init_hidden, forward on
  the sentence's word indices, the negative-log-likelihood loss against the tags'
  indices, backward and one optimizer step: 600 losses and 600 parameter updates in
  all, and the final model is the one these calls produce in this order.
\<close>

theorem training_runs_300_epochs:
  "train torch model =
     Inr (fold torch (concat (replicate 300 epoch_calls)) model,
          concat (replicate 300 epoch_calls)) \<and>
   length (concat (replicate 300 epoch_calls)) = 300 * (2 * 6) \<and>
   length (filter is_loss (concat (replicate 300 epoch_calls))) = 300 * 2 \<and>
   length (filter (\<lambda>c. c = OptimizerStep) (concat (replicate 300 epoch_calls))) = 300 * 2"
proof (intro conjI)
  show "train torch model =
     Inr (fold torch (concat (replicate 300 epoch_calls)) model,
          concat (replicate 300 epoch_calls))"
    by (simp add: train_def train_epochs_calls)
next
  have "length (filter (\<lambda>c. True) (concat (replicate 300 epoch_calls)))
      = 300 * length (filter (\<lambda>c. True) epoch_calls)"
    by (rule filter_concat_replicate)
  then show "length (concat (replicate 300 epoch_calls)) = 300 * (2 * 6)"
    by (simp add: epoch_calls_def sentence_calls_def)
next
  have "length (filter is_loss (concat (replicate 300 epoch_calls)))
      = 300 * length (filter is_loss epoch_calls)"
    by (rule filter_concat_replicate)
  then show "length (filter is_loss (concat (replicate 300 epoch_calls))) = 300 * 2"
    by (simp add: epoch_calls_def sentence_calls_def is_loss_def)
next
  have "length (filter (\<lambda>c. c = OptimizerStep) (concat (replicate 300 epoch_calls)))
      = 300 * length (filter (\<lambda>c. c = OptimizerStep) epoch_calls)"
    by (rule filter_concat_replicate)
  then show "length (filter (\<lambda>c. c = OptimizerStep) (concat (replicate 300 epoch_calls))) = 300 * 2"
    by (simp add: epoch_calls_def sentence_calls_def)
qed


subsection \<open>The constructor of the character-augmented tagger\<close>

lemma notebook_unbound: "notebook_globals ''LSTMTaggerWithChar'' = None"
  by (simp add: notebook_globals_def)

lemma py_super_fails:
  "(\<forall>c. globals name = Some (ClassObject c) \<longrightarrow> c \<notin> set LSTMCharTagger_mro) \<Longrightarrow>
   \<exists>e. py_super globals name = Inl e"
  by (auto simp add: py_super_def split: option.splits pyobject.splits)

text \<open>
  Claim C6. In the notebook the name \<open>LSTMTaggerWithChar\<close> is bound nowhere, so the
  constructor of \<open>LSTMCharTagger\<close> raises for every argument tuple, at its first
  statement (NameError) or before it (a tuple that is not seven arguments), and never
  reaches the rest of its body. The same holds in every session in which that name is
  not bound to \<open>LSTMCharTagger\<close> or one of its base classes, such as the session
  recorded in the notebook, where it is bound to an older class and \<open>super\<close> raises
  TypeError.
\<close>

theorem LSTMCharTagger_never_constructed:
  "LSTMCharTagger_init notebook_globals rest args =
     Inl (if length args \<noteq> 7 then TypeError else NameError ''LSTMTaggerWithChar'') \<and>
   ((\<forall>c. globals ''LSTMTaggerWithChar'' = Some (ClassObject c) \<longrightarrow> c \<notin> set LSTMCharTagger_mro)
      \<longrightarrow> (\<exists>e. LSTMCharTagger_init globals rest args = Inl e))"
proof (intro conjI impI)
  show "LSTMCharTagger_init notebook_globals rest args =
     Inl (if length args \<noteq> 7 then TypeError else NameError ''LSTMTaggerWithChar'')"
    by (simp add: LSTMCharTagger_init_def py_super_def notebook_unbound)
next
  assume "\<forall>c. globals ''LSTMTaggerWithChar'' = Some (ClassObject c) \<longrightarrow> c \<notin> set LSTMCharTagger_mro"
  from py_super_fails[of globals "''LSTMTaggerWithChar''", OF this] obtain e where "py_super globals ''LSTMTaggerWithChar'' = Inl e"
    by blast
  then show "\<exists>e. LSTMCharTagger_init globals rest args = Inl e"
    by (simp add: LSTMCharTagger_init_def)
qed

theorem LSTMCharTagger_never_constructed_witness:
  "(notebook_globals(''LSTMTaggerWithChar'' \<mapsto> ClassObject ''LSTMTaggerWithChar''))
      ''LSTMTaggerWithChar'' = Some (ClassObject ''LSTMTaggerWithChar'') \<and>
   ''LSTMTaggerWithChar'' \<notin> set LSTMCharTagger_mro \<and>
   LSTMCharTagger_init notebook_globals (\<lambda>args. Inr ()) [6, 3, 6, 3, 9, 16, 3 :: nat]
     = Inl (NameError ''LSTMTaggerWithChar'') \<and>
   (\<exists>e. LSTMCharTagger_init
          (notebook_globals(''LSTMTaggerWithChar'' \<mapsto> ClassObject ''LSTMTaggerWithChar''))
          (\<lambda>args. Inr ()) [6, 3, 6, 3, 9, 16, 3 :: nat] = Inl e)"
proof -
  have h: "\<forall>c. (notebook_globals(''LSTMTaggerWithChar'' \<mapsto> ClassObject ''LSTMTaggerWithChar''))
           ''LSTMTaggerWithChar'' = Some (ClassObject c) \<longrightarrow> c \<notin> set LSTMCharTagger_mro"
    by (simp add: LSTMCharTagger_mro_def)
  note inst = LSTMCharTagger_never_constructed[of "\<lambda>args. Inr ()" "[6, 3, 6, 3, 9, 16, 3 :: nat]"
      "notebook_globals(''LSTMTaggerWithChar'' \<mapsto> ClassObject ''LSTMTaggerWithChar'')"]
  from inst have "LSTMCharTagger_init notebook_globals (\<lambda>args. Inr ()) [6, 3, 6, 3, 9, 16, 3 :: nat]
     = Inl (NameError ''LSTMTaggerWithChar'')"
    by simp
  moreover from inst h have "\<exists>e. LSTMCharTagger_init
          (notebook_globals(''LSTMTaggerWithChar'' \<mapsto> ClassObject ''LSTMTaggerWithChar''))
          (\<lambda>args. Inr ()) [6, 3, 6, 3, 9, 16, 3 :: nat] = Inl e"
    by blast
  moreover have "''LSTMTaggerWithChar'' \<notin> set LSTMCharTagger_mro"
    by (simp add: LSTMCharTagger_mro_def)
  ultimately show ?thesis by simp
qed

end
